theory Spec2Isabelle
  imports Complex_Main "HOL-Library.Word" "HOL-Library.Char_ord"
begin

unbundle bit_operations_syntax

section \<open>Running g-code from SD card: a model of drivers/ESP32/sdcard.c\<close>

text \<open>
  The development follows \<^verbatim>\<open>src/drivers/ESP32/sdcard.c\<close> function by function.
  A C string is the list of its characters before the terminating NUL. The static
  variables of the file (\<^verbatim>\<open>file\<close>, \<^verbatim>\<open>active_stream\<close>) and the globals it touches
  (\<^verbatim>\<open>hal\<close>, \<^verbatim>\<open>sys\<close>) are the fields of one state record that every function takes
  and returns.
\<close>

subsection \<open>What the headers provide\<close>

text \<open>
  \<^verbatim>\<open>GRBL/grbl.h\<close> is not part of the sources at hand. Its enumerations appear
  with the enumerators sdcard.c names and one constructor for all the others; the
  values of its macros (the three real-time command characters, the state flags) and
  the numbers of the status codes are parameters, collected in a record.
\<close>

datatype status_code_t =
    Status_OK
  | Status_SystemGClock
  | Status_SDReadError
  | Status_SDMountError
  | Status_SDFailedOpenDir
  | Status_InvalidStatement
  | Status_Unhandled
  | Status_Other nat

datatype message_code_t = Message_ProgramEnd | Message_Other nat

datatype stream_type_t = StreamSetting_SDCard | StreamSetting_Other nat

record grbl_h =
  CMD_STATUS_REPORT :: char
  CMD_CYCLE_START :: char
  CMD_FEED_HOLD :: char
  STATE_IDLE :: nat
  STATE_CYCLE :: nat
  STATE_HOLD :: nat
  status_value :: "status_code_t \<Rightarrow> nat"

text \<open>
  \<^verbatim>\<open>status_value\<close> is the number the enumeration gives each status code.
\<close>

subsection \<open>Filename admission\<close>

datatype file_status_t = Filename_Filtered | Filename_Valid | Filename_Invalid

definition filetypes :: "string list" where
  "filetypes = [''nc'', ''gcode'', ''txt'', ''text'', ''tap'', ''ngc'', '''']"

text \<open>\<^verbatim>\<open>#define LCAPS(c) ((c >= 'A' && c <= 'Z') ? c | 0x20 : c)\<close>\<close>

definition LCAPS :: "char \<Rightarrow> char" where
  "LCAPS c = (if CHR ''A'' \<le> c \<and> c \<le> CHR ''Z''
              then char_of (of_char c OR (0x20 :: nat)) else c)"

text \<open>
  \<^verbatim>\<open>strrchr\<close> and \<^verbatim>\<open>strchr\<close> return the rest of the string from the occurrence
  found, or nothing (the null pointer). Searching for NUL finds the terminator.
\<close>

fun strrchr :: "string \<Rightarrow> char \<Rightarrow> string option" where
  "strrchr [] c = (if c = CHR 0x00 then Some [] else None)"
| "strrchr (x # xs) c =
     (case strrchr xs c of
        Some r \<Rightarrow> Some r
      | None \<Rightarrow> if x = c then Some (x # xs) else None)"

fun strchr :: "string \<Rightarrow> char \<Rightarrow> string option" where
  "strchr [] c = (if c = CHR 0x00 then Some [] else None)"
| "strchr (x # xs) c = (if x = c then Some (x # xs) else strchr xs c)"

definition strlen :: "string \<Rightarrow> nat" where
  "strlen s = length s"

text \<open>
  The second loop of \<^verbatim>\<open>allowed\<close>: it walks the table while the status is still
  Filtered and the entry is not the empty string that ends the table.
\<close>

fun scan_filetypes :: "string \<Rightarrow> string list \<Rightarrow> file_status_t \<Rightarrow> file_status_t" where
  "scan_filetypes filetype [] status = status"
| "scan_filetypes filetype (t # ts) status =
     (if status = Filename_Filtered \<and> t \<noteq> []
      then scan_filetypes filetype ts (if filetype = t then Filename_Valid else status)
      else status)"

definition check_chars :: "grbl_h \<Rightarrow> string \<Rightarrow> file_status_t \<Rightarrow> file_status_t" where
  "check_chars g filename status =
     (if status = Filename_Valid then
        (if strchr filename CHR '' '' \<noteq> None \<or>
            strchr filename (CMD_STATUS_REPORT g) \<noteq> None \<or>
            strchr filename (CMD_CYCLE_START g) \<noteq> None \<or>
            strchr filename (CMD_FEED_HOLD g) \<noteq> None
         then Filename_Invalid else status)
      else status)"

definition allowed :: "grbl_h \<Rightarrow> string \<Rightarrow> bool \<Rightarrow> file_status_t" where
  "allowed g filename is_file =
     (let status = (if is_file then Filename_Filtered else Filename_Valid) in
      case (if is_file then strrchr filename CHR ''.'' else None) of
        Some dot \<Rightarrow>
          (let ftptr = tl dot in
           if strlen ftptr > 8 - 1 then status
           else check_chars g filename
                  (scan_filetypes (map LCAPS ftptr) filetypes status))
      | None \<Rightarrow> check_chars g filename status)"

subsection \<open>State\<close>

text \<open>
  A function pointer is the name of the function it points to. The functions of
  sdcard.c and the two report functions of the core have names; any other function
  (the console's reader, a driver's writer) is \<^verbatim>\<open>Fn_extern\<close> with an identifier.
\<close>

datatype fn_ptr =
    NULL
  | Fn_sdcard_read
  | Fn_sdcard_suspend
  | Fn_sdcard_report
  | Fn_trap_status_report
  | Fn_trap_feedback_message
  | Fn_report_status_message
  | Fn_report_feedback_message
  | Fn_extern nat

text \<open>
  The stream structure is declared in a header outside the sources at hand; these are
  the members sdcard.c names. \<^verbatim>\<open>memcpy\<close> copies the structure as a whole, as
  assigning the record does.
\<close>

record io_stream_t =
  type :: stream_type_t
  read :: fn_ptr
  write_f :: fn_ptr
  reset_read_buffer :: fn_ptr
  suspend_read :: fn_ptr

record report_t =
  status_message :: fn_ptr
  feedback_message :: fn_ptr

record hal_t =
  stream :: io_stream_t
  report :: report_t
  driver_rt_report :: fn_ptr

record sys_t =
  state :: nat
  block_input_stream :: bool

text \<open>
  An open FatFs file object: the bytes of the file, the read pointer, and the offset
  (if any) at which the medium fails to deliver a byte.
\<close>

record FIL =
  fdata :: "8 word list"
  fptr :: nat
  ferr :: "nat option"

text \<open>
  \<^verbatim>\<open>file.handle\<close> is either null or the address of the one static \<^verbatim>\<open>cncfile\<close>;
  the model keeps the file object where the pointer is. \<^verbatim>\<open>size_t\<close> and
  \<^verbatim>\<open>uint32_t\<close> are 32 bits wide on the ESP32, \<^verbatim>\<open>eol\<close> is a \<^verbatim>\<open>uint8_t\<close>.
\<close>

record file_t =
  fs :: bool
  handle :: "FIL option"
  size_f :: "32 word"
  pos :: "32 word"
  line :: "32 word"
  eol :: "8 word"

text \<open>
  The storage as FatFs presents it: what \<^verbatim>\<open>f_open\<close> finds under a path, whether
  \<^verbatim>\<open>malloc\<close> and \<^verbatim>\<open>f_mount\<close> succeed, and what a directory walk reports.
\<close>

record fatfs_t =
  disk :: "(string \<times> FIL) list"
  malloc_ok :: bool
  f_mount_ok :: bool
  scan_ok :: bool
  scan_records :: "string list"

text \<open>
  IEEE single precision values, as far as the progress report needs them: the result
  of a division is not a number when both operands are zero. Rounding of finite
  values is not modelled.
\<close>

datatype c_float = Finite real | Infinity | NaN

datatype write_arg = Str string | Ftoa c_float nat

text \<open>Calls that leave sdcard.c, in the order they are made.\<close>

datatype call =
    Call_write fn_ptr write_arg
  | Call_reset_read_buffer fn_ptr
  | Call_status_message fn_ptr status_code_t
  | Call_report_feedback_message message_code_t

record sd_state =
  hal :: hal_t
  sys :: sys_t
  file_f :: file_t
  active_stream :: io_stream_t
  fatfs :: fatfs_t
  calls :: "call list"

definition emit :: "call \<Rightarrow> sd_state \<Rightarrow> sd_state" where
  "emit c s = s\<lparr>calls := calls s @ [c]\<rparr>"

definition hal_stream_write :: "string \<Rightarrow> sd_state \<Rightarrow> sd_state" where
  "hal_stream_write buf s = emit (Call_write (write_f (stream (hal s))) (Str buf)) s"

definition hal_stream_reset_read_buffer :: "sd_state \<Rightarrow> sd_state" where
  "hal_stream_reset_read_buffer s =
     emit (Call_reset_read_buffer (reset_read_buffer (stream (hal s)))) s"

subsection \<open>Formatting\<close>

fun show_nat :: "nat \<Rightarrow> string" where
  "show_nat n =
     (if n < 10 then [char_of (48 + n)]
      else show_nat (n div 10) @ [char_of (48 + n mod 10)])"

declare show_nat.simps [simp del]

text \<open>The conversion \<^verbatim>\<open>%d\<close> of \<^verbatim>\<open>sprintf\<close>.\<close>

definition show_int :: "int \<Rightarrow> string" where
  "show_int i = (if i < 0 then CHR ''-'' # show_nat (nat (- i)) else show_nat (nat i))"

definition crlf :: string where
  "crlf = [CHR 0x0D, CHR 0x0A]"

subsection \<open>File session\<close>

definition file_close :: "sd_state \<Rightarrow> sd_state" where
  "file_close s =
     (if handle (file_f s) \<noteq> None then s\<lparr>file_f := (file_f s)\<lparr>handle := None\<rparr>\<rparr> else s)"

definition f_open :: "fatfs_t \<Rightarrow> string \<Rightarrow> FIL option" where
  "f_open fat filename = map_option (\<lambda>f. f\<lparr>fptr := 0\<rparr>) (map_of (disk fat) filename)"

definition file_open :: "string \<Rightarrow> sd_state \<Rightarrow> bool \<times> sd_state" where
  "file_open filename s =
     (let s1 = (if handle (file_f s) \<noteq> None then file_close s else s);
          s2 = (case f_open (fatfs s1) filename of
                  Some cncfile \<Rightarrow>
                    s1\<lparr>file_f := (file_f s1)\<lparr>handle := Some cncfile,
                                         size_f := of_nat (length (fdata cncfile)),
                                         pos := 0, line := 0, eol := 0\<rparr>\<rparr>
                | None \<Rightarrow> s1)
      in (handle (file_f s2) \<noteq> None, s2))"

text \<open>
  \<^verbatim>\<open>f_read\<close> of one byte: the byte and the advanced file object, or nothing when
  the call fails or delivers no byte.
\<close>

definition f_read :: "FIL \<Rightarrow> (8 word \<times> FIL) option" where
  "f_read fp =
     (if ferr fp = Some (fptr fp) then None
      else if fptr fp < length (fdata fp)
      then Some (fdata fp ! fptr fp, fp\<lparr>fptr := fptr fp + 1\<rparr>)
      else None)"

text \<open>
  \<^verbatim>\<open>c\<close> is a \<^verbatim>\<open>signed char\<close>; the result is its value as \<^verbatim>\<open>int16_t\<close>.
\<close>

definition file_read :: "sd_state \<Rightarrow> int \<times> sd_state" where
  "file_read s =
     (let (c, s1) =
            (case (case handle (file_f s) of Some fp \<Rightarrow> f_read fp | None \<Rightarrow> None) of
               Some (b, fp') \<Rightarrow>
                 (b, s\<lparr>file_f := (file_f s)\<lparr>handle := Some fp', pos := of_nat (fptr fp')\<rparr>\<rparr>)
             | None \<Rightarrow> (- 1 :: 8 word, s));
          s2 = (if c = 0x0D \<or> c = 0x0A
                then s1\<lparr>file_f := (file_f s1)\<lparr>eol := eol (file_f s1) + 1\<rparr>\<rparr>
                else s1\<lparr>file_f := (file_f s1)\<lparr>eol := 0\<rparr>\<rparr>)
      in (sint c, s2))"

definition sdcard_mount :: "sd_state \<Rightarrow> bool \<times> sd_state" where
  "sdcard_mount s =
     (let s1 = (if \<not> fs (file_f s) then s\<lparr>file_f := (file_f s)\<lparr>fs := malloc_ok (fatfs s)\<rparr>\<rparr> else s);
          s2 = (if fs (file_f s1) \<and> \<not> f_mount_ok (fatfs s1)
                then s1\<lparr>file_f := (file_f s1)\<lparr>fs := False\<rparr>\<rparr> else s1)
      in (fs (file_f s2), s2))"

text \<open>
  \<^verbatim>\<open>scan_dir\<close> reads the medium and writes one record per accepted file through
  \<^verbatim>\<open>hal.stream.write\<close>; it touches nothing else of the state. Which records it
  writes and what it returns is decided by FatFs's directory iteration, which is not
  modelled: both are taken from the storage.
\<close>

definition scan_dir :: "string \<Rightarrow> nat \<Rightarrow> sd_state \<Rightarrow> bool \<times> sd_state" where
  "scan_dir path depth s = (scan_ok (fatfs s), fold hal_stream_write (scan_records (fatfs s)) s)"

definition sdcard_ls :: "sd_state \<Rightarrow> status_code_t \<times> sd_state" where
  "sdcard_ls s =
     (let (res, s1) = scan_dir [] 10 s
      in (if res then Status_OK else Status_SDFailedOpenDir, s1))"

subsection \<open>Job control\<close>

definition sdcard_end_job :: "sd_state \<Rightarrow> sd_state" where
  "sdcard_end_job s =
     (let s1 = file_close s;
          s2 = s1\<lparr>hal := (hal s1)\<lparr>stream := active_stream s1\<rparr>\<rparr>;
          s3 = hal_stream_reset_read_buffer s2;
          s4 = s3\<lparr>hal := (hal s3)\<lparr>driver_rt_report := NULL\<rparr>\<rparr>;
          s5 = s4\<lparr>hal := (hal s4)\<lparr>report := (report (hal s4))
                   \<lparr>status_message := Fn_report_status_message\<rparr>\<rparr>\<rparr>;
          s6 = s5\<lparr>hal := (hal s5)\<lparr>report := (report (hal s5))
                   \<lparr>feedback_message := Fn_report_feedback_message\<rparr>\<rparr>\<rparr>
      in s6\<lparr>sys := (sys s6)\<lparr>block_input_stream := False\<rparr>\<rparr>)"

text \<open>
  \<^verbatim>\<open>sprintf(buf, "error:%d in SD file at line %d\r\n", (uint8_t)status_code, file.line)\<close>:
  the cast keeps the low eight bits, and \<^verbatim>\<open>%d\<close> reads the 32-bit line counter as
  a signed number.
\<close>

definition error_report :: "grbl_h \<Rightarrow> status_code_t \<Rightarrow> 32 word \<Rightarrow> string" where
  "error_report g status_code n =
     ''error:'' @ show_int (int (status_value g status_code mod 256)) @
     '' in SD file at line '' @ show_int (sint n) @ crlf"

definition trap_status_report :: "grbl_h \<Rightarrow> status_code_t \<Rightarrow> sd_state \<Rightarrow> sd_state" where
  "trap_status_report g status_code s =
     (if status_code \<noteq> Status_OK
      then sdcard_end_job (hal_stream_write (error_report g status_code (line (file_f s))) s)
      else s)"

definition report_feedback_message :: "message_code_t \<Rightarrow> sd_state \<Rightarrow> sd_state" where
  "report_feedback_message message_code s = emit (Call_report_feedback_message message_code) s"

definition trap_feedback_message :: "message_code_t \<Rightarrow> sd_state \<Rightarrow> sd_state" where
  "trap_feedback_message message_code s =
     (let s1 = report_feedback_message message_code s
      in if message_code = Message_ProgramEnd then sdcard_end_job s1 else s1)"

definition sdcard_read :: "grbl_h \<Rightarrow> sd_state \<Rightarrow> int \<times> sd_state" where
  "sdcard_read g s =
     (let c = - 1;
          s1 = (if eol (file_f s) = 1
                then s\<lparr>file_f := (file_f s)\<lparr>line := line (file_f s) + 1\<rparr>\<rparr> else s)
      in if handle (file_f s1) \<noteq> None then
           (let (c, s2) =
                  (if state (sys s1) = STATE_IDLE g \<or>
                      (state (sys s1) AND (STATE_CYCLE g OR STATE_HOLD g)) \<noteq> 0
                   then file_read s1 else (c, s1))
            in if c = - 1 then
                 (let s3 = file_close s2
                  in (if eol (file_f s3) = 0 then 0x0A else c, s3))
               else (c, s2))
         else if state (sys s1) = STATE_IDLE g then (c, sdcard_end_job s1)
         else (c, s1))"

definition float_div :: "real \<Rightarrow> real \<Rightarrow> c_float" where
  "float_div a b = (if b = 0 then (if a = 0 then NaN else Infinity) else Finite (a / b))"

definition float_mul :: "c_float \<Rightarrow> real \<Rightarrow> c_float" where
  "float_mul x k =
     (case x of
        Finite r \<Rightarrow> Finite (r * k)
      | Infinity \<Rightarrow> (if k = 0 then NaN else Infinity)
      | NaN \<Rightarrow> NaN)"

definition sdcard_report :: "fn_ptr \<Rightarrow> sd_state \<Rightarrow> sd_state" where
  "sdcard_report stream_write s =
     (let s1 = emit (Call_write stream_write (Str ''|SD:'')) s;
          progress = float_mul (float_div (real (unat (pos (file_f s1))))
                                          (real (unat (size_f (file_f s1))))) 100
      in emit (Call_write stream_write (Ftoa progress 1)) s1)"

definition sdcard_suspend :: "bool \<Rightarrow> sd_state \<Rightarrow> bool \<times> sd_state" where
  "sdcard_suspend suspend s =
     (let s1 = s\<lparr>sys := (sys s)\<lparr>block_input_stream := \<not> suspend\<rparr>\<rparr>;
          s2 = (if suspend then
                  (let t1 = hal_stream_reset_read_buffer s1;
                       t2 = t1\<lparr>hal := (hal t1)\<lparr>stream := (stream (hal t1))
                                \<lparr>read := read (active_stream t1)\<rparr>\<rparr>\<rparr>
                   in t2\<lparr>hal := (hal t2)\<lparr>report := (report (hal t2))
                           \<lparr>status_message := Fn_report_status_message\<rparr>\<rparr>\<rparr>)
                else
                  (let t1 = s1\<lparr>hal := (hal s1)\<lparr>stream := (stream (hal s1))
                                \<lparr>read := Fn_sdcard_read\<rparr>\<rparr>\<rparr>
                   in t1\<lparr>hal := (hal t1)\<lparr>report := (report (hal t1))
                           \<lparr>status_message := Fn_trap_status_report\<rparr>\<rparr>\<rparr>))
      in (True, s2))"

text \<open>
  \<^verbatim>\<open>hal.report.status_message(Status_OK)\<close> goes through the pointer installed at
  the time: to \<^verbatim>\<open>trap_status_report\<close> when a job is running, out of sdcard.c
  otherwise.
\<close>

definition hal_report_status_message ::
  "grbl_h \<Rightarrow> status_code_t \<Rightarrow> sd_state \<Rightarrow> sd_state" where
  "hal_report_status_message g status_code s =
     (if status_message (report (hal s)) = Fn_trap_status_report
      then trap_status_report g status_code s
      else emit (Call_status_message (status_message (report (hal s))) status_code) s)"

text \<open>
  \<^verbatim>\<open>line[i]\<close>: the characters of the string, then its terminating NUL.
\<close>

definition char_at :: "string \<Rightarrow> nat \<Rightarrow> char" where
  "char_at str i = (if i < length str then str ! i else CHR 0x00)"

definition start_job :: "grbl_h \<Rightarrow> sd_state \<Rightarrow> sd_state" where
  "start_job g s =
     (let s1 = hal_report_status_message g Status_OK s;
          s2 = s1\<lparr>active_stream := stream (hal s1)\<rparr>;
          s3 = s2\<lparr>hal := (hal s2)\<lparr>stream := (stream (hal s2))
                   \<lparr>type := StreamSetting_SDCard\<rparr>\<rparr>\<rparr>;
          s4 = s3\<lparr>hal := (hal s3)\<lparr>stream := (stream (hal s3))
                   \<lparr>read := Fn_sdcard_read\<rparr>\<rparr>\<rparr>;
          s5 = s4\<lparr>hal := (hal s4)\<lparr>stream := (stream (hal s4))
                   \<lparr>suspend_read := Fn_sdcard_suspend\<rparr>\<rparr>\<rparr>;
          s6 = s5\<lparr>hal := (hal s5)\<lparr>driver_rt_report := Fn_sdcard_report\<rparr>\<rparr>;
          s7 = s6\<lparr>hal := (hal s6)\<lparr>report := (report (hal s6))
                   \<lparr>status_message := Fn_trap_status_report\<rparr>\<rparr>\<rparr>;
          s8 = s7\<lparr>hal := (hal s7)\<lparr>report := (report (hal s7))
                   \<lparr>feedback_message := Fn_trap_feedback_message\<rparr>\<rparr>\<rparr>
      in s8\<lparr>sys := (sys s8)\<lparr>block_input_stream := True\<rparr>\<rparr>)"

text \<open>
  \<^verbatim>\<open>start_job\<close> is the body of the branch of \<^verbatim>\<open>sdcard_parse\<close> taken when
  \<^verbatim>\<open>file_open\<close> succeeds, in the order of its statements.
\<close>

definition sdcard_parse ::
  "grbl_h \<Rightarrow> nat \<Rightarrow> string \<Rightarrow> string \<Rightarrow> sd_state \<Rightarrow> status_code_t \<times> sd_state" where
  "sdcard_parse g st line_buf lcline s =
     (if char_at line_buf 1 = CHR ''F'' then
        (if char_at line_buf 2 = CHR 0x00 then sdcard_ls s
         else if char_at line_buf 2 = CHR ''M'' then
           (let (ok, s1) = sdcard_mount s
            in (if ok then Status_OK else Status_SDMountError, s1))
         else if char_at line_buf 2 = CHR ''='' then
           (if st \<noteq> STATE_IDLE g then (Status_SystemGClock, s)
            else
              (let (ok, s1) = file_open (drop 3 line_buf) s
               in if ok then (Status_OK, start_job g s1)
                  else (Status_SDReadError, s1)))
         else (Status_InvalidStatement, s))
      else (Status_Unhandled, s))"

definition reset_message :: "32 word \<Rightarrow> string" where
  "reset_message n =
     ''[MSG:Reset during streaming of SD file at line: '' @ show_int (sint n) @ '']'' @ crlf"

definition sdcard_reset :: "sd_state \<Rightarrow> sd_state" where
  "sdcard_reset s =
     (if type (stream (hal s)) = StreamSetting_SDCard
      then sdcard_end_job (hal_stream_write (reset_message (line (file_f s))) s)
      else s)"

subsection \<open>The classification as the specification words it\<close>

text \<open>
  The extension of a name is the text after its last dot; two extensions are the same
  ignoring case when they agree after mapping the letters A to Z to lower case.
\<close>

definition lower_case :: "char \<Rightarrow> char" where
  "lower_case c =
     (if of_char c \<in> {65 .. 90 :: nat} then char_of (of_char c + (32 :: nat)) else c)"

definition extension :: "string \<Rightarrow> string option" where
  "extension name =
     (if CHR ''.'' \<in> set name
      then Some (rev (takeWhile (\<lambda>c. c \<noteq> CHR ''.'') (rev name))) else None)"

definition same_ignoring_case :: "string \<Rightarrow> string \<Rightarrow> bool" where
  "same_ignoring_case a b = (map lower_case a = map lower_case b)"

definition admission_list :: "string list" where
  "admission_list = [''nc'', ''gcode'', ''txt'', ''text'', ''tap'', ''ngc'']"

definition admissible_extension :: "string \<Rightarrow> bool" where
  "admissible_extension name =
     (case extension name of
        None \<Rightarrow> False
      | Some e \<Rightarrow> list_ex (same_ignoring_case e) admission_list)"

definition has_forbidden_char :: "grbl_h \<Rightarrow> string \<Rightarrow> bool" where
  "has_forbidden_char g name =
     (CHR '' '' \<in> set name \<or> CMD_STATUS_REPORT g \<in> set name \<or>
      CMD_CYCLE_START g \<in> set name \<or> CMD_FEED_HOLD g \<in> set name)"

definition classify :: "grbl_h \<Rightarrow> string \<Rightarrow> bool \<Rightarrow> file_status_t" where
  "classify g name is_file =
     (if is_file \<and> \<not> admissible_extension name then Filename_Filtered
      else if has_forbidden_char g name then Filename_Invalid
      else Filename_Valid)"

subsection \<open>The firmware around sdcard.c\<close>

text \<open>
  The main loop asks the installed reader for one character at a time; the system
  state at each request is whatever the rest of the firmware has made it. A read can
  use the file in the idle state and while a cycle or a feed hold is active.
\<close>

definition streaming_state :: "grbl_h \<Rightarrow> nat \<Rightarrow> bool" where
  "streaming_state g st =
     (st = STATE_IDLE g \<or> (st AND (STATE_CYCLE g OR STATE_HOLD g)) \<noteq> 0)"

fun read_requests :: "grbl_h \<Rightarrow> nat list \<Rightarrow> sd_state \<Rightarrow> int list \<times> sd_state" where
  "read_requests g [] s = ([], s)"
| "read_requests g (st # sts) s =
     (let (c, s1) = sdcard_read g (s\<lparr>sys := (sys s)\<lparr>state := st\<rparr>\<rparr>);
          (cs, s2) = read_requests g sts s1
      in (c # cs, s2))"

text \<open>The run command for a path, dispatched while the system is idle.\<close>

definition run_command :: "grbl_h \<Rightarrow> string \<Rightarrow> sd_state \<Rightarrow> status_code_t \<times> sd_state" where
  "run_command g path s = sdcard_parse g (STATE_IDLE g) (''$F='' @ path) [] s"

text \<open>
  What can happen between the run command and the end of a job: read requests,
  suspend and resume requests, status and feedback reports, resets.
\<close>

datatype job_event =
    Read_request nat
  | Suspend_request bool
  | Status_event status_code_t
  | Feedback_event message_code_t
  | Reset_event

fun job_step :: "grbl_h \<Rightarrow> job_event \<Rightarrow> sd_state \<Rightarrow> sd_state" where
  "job_step g (Read_request st) s = snd (sdcard_read g (s\<lparr>sys := (sys s)\<lparr>state := st\<rparr>\<rparr>))"
| "job_step g (Suspend_request b) s = snd (sdcard_suspend b s)"
| "job_step g (Status_event c) s = trap_status_report g c s"
| "job_step g (Feedback_event m) s = trap_feedback_message m s"
| "job_step g Reset_event s = sdcard_reset s"

definition job_steps :: "grbl_h \<Rightarrow> job_event list \<Rightarrow> sd_state \<Rightarrow> sd_state" where
  "job_steps g evs s = fold (job_step g) evs s"

text \<open>
  The four ways a job ends, each with the condition under which the function reaches
  \<^verbatim>\<open>sdcard_end_job\<close>.
\<close>

datatype end_path = End_of_file | Status_error status_code_t | Program_end | Reset

fun ends_job :: "grbl_h \<Rightarrow> end_path \<Rightarrow> sd_state \<Rightarrow> bool" where
  "ends_job g End_of_file s = (handle (file_f s) = None \<and> state (sys s) = STATE_IDLE g)"
| "ends_job g (Status_error c) s = (c \<noteq> Status_OK)"
| "ends_job g Program_end s = True"
| "ends_job g Reset s = (type (stream (hal s)) = StreamSetting_SDCard)"

fun end_job_by :: "grbl_h \<Rightarrow> end_path \<Rightarrow> sd_state \<Rightarrow> sd_state" where
  "end_job_by g End_of_file s = snd (sdcard_read g s)"
| "end_job_by g (Status_error c) s = trap_status_report g c s"
| "end_job_by g Program_end s = trap_feedback_message Message_ProgramEnd s"
| "end_job_by g Reset s = sdcard_reset s"


subsection \<open>Files as lines\<close>

text \<open>
  A file of properly terminated lines is a sequence of lines, each a text followed by
  a terminator: the text is not empty and has no carriage return, no line feed and no
  byte 0xFF (which \<^verbatim>\<open>file_read\<close> cannot tell from the end of the file), the
  terminator is a run of at most 255 carriage returns and line feeds.
\<close>

definition is_eol :: "8 word \<Rightarrow> bool" where
  "is_eol b = (b = 0x0D \<or> b = 0x0A)"

definition text_line :: "8 word list \<Rightarrow> bool" where
  "text_line l = (l \<noteq> [] \<and> list_all (\<lambda>b. \<not> is_eol b \<and> b \<noteq> - 1) l)"

definition terminator :: "8 word list \<Rightarrow> bool" where
  "terminator t = (t \<noteq> [] \<and> list_all is_eol t \<and> length t \<le> 255)"

definition lines_file :: "(8 word list \<times> 8 word list) list \<Rightarrow> 8 word list" where
  "lines_file lts = concat (map (\<lambda>lt. fst lt @ snd lt) lts)"

text \<open>
  What one byte read does to the pair of line counter and end-of-line run: the counter
  moves at the top of the read, the run after the byte is known.
\<close>

definition count_step :: "8 word \<Rightarrow> 32 word \<times> 8 word \<Rightarrow> 32 word \<times> 8 word" where
  "count_step b le =
     (if snd le = 1 then fst le + 1 else fst le,
      if b = 0x0D \<or> b = 0x0A then snd le + 1 else 0)"

text \<open>The line counter as the next read request will leave it.\<close>

definition pending :: "32 word \<times> 8 word \<Rightarrow> 32 word" where
  "pending le = (if snd le = 1 then fst le + 1 else fst le)"

subsection \<open>Concrete configurations\<close>

text \<open>
  The values Grbl gives the macros, a console stream, and a card holding a few small
  files: \<^verbatim>\<open>/a.nc\<close> is \<^verbatim>\<open>G0\<close> and a line feed, \<^verbatim>\<open>/b.nc\<close> is \<^verbatim>\<open>G\<close>, a line feed and
  \<^verbatim>\<open>X\<close> with no terminator, \<^verbatim>\<open>/c.nc\<close> has a blank second line, \<^verbatim>\<open>/e.nc\<close> is empty.
\<close>

definition grbl_defaults :: grbl_h where
  "grbl_defaults =
     \<lparr>CMD_STATUS_REPORT = CHR ''?'', CMD_CYCLE_START = CHR ''~'', CMD_FEED_HOLD = CHR ''!'',
      STATE_IDLE = 0, STATE_CYCLE = 8, STATE_HOLD = 16,
      status_value = (\<lambda>c. case c of Status_OK \<Rightarrow> 0 | Status_Other n \<Rightarrow> n | _ \<Rightarrow> 60)\<rparr>"

definition console_stream :: io_stream_t where
  "console_stream =
     \<lparr>type = StreamSetting_Other 0, read = Fn_extern 1, write_f = Fn_extern 2,
      reset_read_buffer = Fn_extern 3, suspend_read = Fn_extern 4\<rparr>"

definition sd_card :: "(string \<times> FIL) list" where
  "sd_card =
     [(''/a.nc'', \<lparr>fdata = [0x47, 0x30, 0x0A], fptr = 0, ferr = None\<rparr>),
      (''/b.nc'', \<lparr>fdata = [0x47, 0x0A, 0x58], fptr = 0, ferr = None\<rparr>),
      (''/c.nc'', \<lparr>fdata = [0x47, 0x0A, 0x0A, 0x58, 0x0A], fptr = 0, ferr = None\<rparr>),
      (''/e.nc'', \<lparr>fdata = [], fptr = 0, ferr = None\<rparr>)]"

definition idle_console :: sd_state where
  "idle_console =
     \<lparr>hal = \<lparr>stream = console_stream,
             report = \<lparr>status_message = Fn_report_status_message,
                       feedback_message = Fn_report_feedback_message\<rparr>,
             driver_rt_report = NULL\<rparr>,
      sys = \<lparr>state = 0, block_input_stream = False\<rparr>,
      file_f = \<lparr>fs = False, handle = None, size_f = 0, pos = 0, line = 0, eol = 0\<rparr>,
      active_stream = \<lparr>type = StreamSetting_Other 0, read = NULL, write_f = NULL,
                        reset_read_buffer = NULL, suspend_read = NULL\<rparr>,
      fatfs = \<lparr>disk = sd_card, malloc_ok = True, f_mount_ok = True, scan_ok = True,
                scan_records = []\<rparr>,
      calls = []\<rparr>"


text \<open>
  The same console after another part of the firmware has installed status and
  feedback hooks of its own.
\<close>

definition plugin_console :: sd_state where
  "plugin_console =
     idle_console\<lparr>hal := (hal idle_console)
       \<lparr>report := \<lparr>status_message = Fn_extern 5, feedback_message = Fn_extern 6\<rparr>\<rparr>\<rparr>"

text \<open>
  A job on \<^verbatim>\<open>/a.nc\<close> started from the console; the same job after three and after
  four read requests; and a second run command, for \<^verbatim>\<open>/b.nc\<close>, arriving while the
  first job is streaming.
\<close>

definition first_job :: sd_state where
  "first_job = snd (run_command grbl_defaults ''/a.nc'' idle_console)"

definition at_end_of_file :: sd_state where
  "at_end_of_file = snd (read_requests grbl_defaults [0, 0, 0] first_job)"


definition nested_job :: sd_state where
  "nested_job = snd (run_command grbl_defaults ''/b.nc'' first_job)"

section \<open>Properties\<close>

subsection \<open>Filename admission\<close>

lemma strrchr_None: "c \<noteq> CHR 0x00 \<Longrightarrow> c \<notin> set s \<Longrightarrow> strrchr s c = None"
  by (induction s) auto

lemma strrchr_tail:
  "c \<noteq> CHR 0x00 \<Longrightarrow> c \<notin> set ext \<Longrightarrow> strrchr (pre @ c # ext) c = Some (c # ext)"
  by (induction pre) (auto simp: strrchr_None)

lemma strchr_iff: "c \<noteq> CHR 0x00 \<Longrightarrow> (strchr s c = None) = (c \<notin> set s)"
  by (induction s) auto

lemma bit5_clear: "64 \<le> n \<Longrightarrow> n < 96 \<Longrightarrow> \<not> bit (n::nat) 5"
proof -
  assume "64 \<le> n" "n < 96"
  then have "n div 32 = 2" by simp
  then show ?thesis by (simp add: bit_iff_odd)
qed

lemma or_0x20: assumes "65 \<le> n" "n \<le> 90" shows "n OR 32 = n + (32::nat)"
proof -
  have "\<not> bit n 5" using assms by (intro bit5_clear) auto
  moreover have "bit (32::nat) k \<longleftrightarrow> k = 5" for k
  proof -
    have "(32::nat) = 2 ^ 5" by simp
    then show ?thesis by (simp only: bit_exp_iff) simp
  qed
  ultimately have "n + 32 = n OR 32"
    by (intro disjunctive_add) auto
  then show ?thesis by simp
qed

lemma LCAPS_lower_case: "LCAPS c = lower_case c"
  using or_0x20[of "of_char c"]
  by (auto simp: LCAPS_def lower_case_def less_eq_char_def)

lemma extension_split:
  "CHR ''.'' \<notin> set ext \<Longrightarrow> extension (pre @ CHR ''.'' # ext) = Some ext"
proof -
  assume a: "CHR ''.'' \<notin> set ext"
  have "takeWhile (\<lambda>c. c \<noteq> CHR ''.'') (rev ext @ CHR ''.'' # rev pre) =
        takeWhile (\<lambda>c. c \<noteq> CHR ''.'') (rev ext)"
    by (rule takeWhile_tail) simp
  also have "\<dots> = rev ext"
    using a by (auto simp: takeWhile_eq_all_conv)
  finally show ?thesis by (simp add: extension_def)
qed

lemma scan_filetypes_table:
  "scan_filetypes ft filetypes Filename_Filtered =
     (if ft \<in> set admission_list then Filename_Valid else Filename_Filtered)"
  by (simp add: filetypes_def admission_list_def)

lemma lower_case_admission: "t \<in> set admission_list \<Longrightarrow> map lower_case t = t"
  by (auto simp: admission_list_def lower_case_def)

lemma admission_length: "t \<in> set admission_list \<Longrightarrow> length t \<le> 5"
  by (auto simp: admission_list_def)

lemma admissible_split:
  assumes "CHR ''.'' \<notin> set ext"
  shows "admissible_extension (pre @ CHR ''.'' # ext) = (map LCAPS ext \<in> set admission_list)"
proof -
  have "list_ex (same_ignoring_case ext) admission_list =
        (map lower_case ext \<in> set admission_list)"
    by (auto simp: list_ex_iff same_ignoring_case_def lower_case_admission)
  then show ?thesis
    using assms by (simp add: admissible_extension_def extension_split LCAPS_lower_case[abs_def])
qed

lemma check_chars_eq:
  assumes "CHR 0x00 \<notin> {CMD_STATUS_REPORT g, CMD_CYCLE_START g, CMD_FEED_HOLD g}"
  shows "check_chars g name status =
     (if status = Filename_Valid \<and> has_forbidden_char g name then Filename_Invalid else status)"
proof -
  have 1: "(strchr name CHR '' '' = None) = (CHR '' '' \<notin> set name)"
    by (simp add: strchr_iff)
  have 2: "(strchr name (CMD_STATUS_REPORT g) = None) = (CMD_STATUS_REPORT g \<notin> set name)"
    using assms by (intro strchr_iff) auto
  have 3: "(strchr name (CMD_CYCLE_START g) = None) = (CMD_CYCLE_START g \<notin> set name)"
    using assms by (intro strchr_iff) auto
  have 4: "(strchr name (CMD_FEED_HOLD g) = None) = (CMD_FEED_HOLD g \<notin> set name)"
    using assms by (intro strchr_iff) auto
  show ?thesis
    by (simp add: check_chars_def has_forbidden_char_def 1 2 3 4)
qed

lemma allowed_refines_classify:
  assumes "CHR 0x00 \<notin> {CMD_STATUS_REPORT g, CMD_CYCLE_START g, CMD_FEED_HOLD g}"
  shows "allowed g name is_file = classify g name is_file"
proof (cases is_file)
  case False
  then show ?thesis
    by (simp add: allowed_def classify_def check_chars_eq[OF assms])
next
  case True
  show ?thesis
  proof (cases "CHR ''.'' \<in> set name")
    case False
    then have "strrchr name CHR ''.'' = None" by (simp add: strrchr_None)
    moreover have "\<not> admissible_extension name"
      using False by (simp add: admissible_extension_def extension_def)
    ultimately show ?thesis
      using True by (simp add: allowed_def classify_def check_chars_eq[OF assms])
  next
    case dot: True
    then obtain pre ext where name: "name = pre @ CHR ''.'' # ext"
      and ext: "CHR ''.'' \<notin> set ext"
      by (auto dest: split_list_last)
    have r: "strrchr name CHR ''.'' = Some (CHR ''.'' # ext)"
      using ext by (simp add: name strrchr_tail)
    have adm: "admissible_extension name = (map LCAPS ext \<in> set admission_list)"
      using ext by (simp add: name admissible_split)
    show ?thesis
    proof (cases "length ext > 7")
      case long: True
      have "map LCAPS ext \<notin> set admission_list"
        using long admission_length[of "map LCAPS ext"] by auto
      then show ?thesis
        using True long by (simp add: allowed_def classify_def r adm strlen_def)
    next
      case short: False
      then show ?thesis
        using True
        by (simp add: allowed_def classify_def r adm strlen_def scan_filetypes_table
            check_chars_eq[OF assms])
    qed
  qed
qed

text \<open>
  C7. Classification is a function of the name and the is-regular-file flag alone, and
  it is the one the specification describes: a regular file whose extension is not,
  ignoring case, in the admission list is Filtered; otherwise a name with a space or
  one of the three real-time command characters is Invalid; otherwise it is Valid. A
  directory is never Filtered. The three command characters are taken to be other
  than NUL.
\<close>

theorem allowed_classification:
  assumes "CHR 0x00 \<notin> {CMD_STATUS_REPORT g, CMD_CYCLE_START g, CMD_FEED_HOLD g}"
  shows "allowed g name is_file = classify g name is_file \<and>
         allowed g name False \<noteq> Filename_Filtered"
  using allowed_refines_classify[OF assms, of name is_file]
    allowed_refines_classify[OF assms, of name False]
  by (simp add: classify_def)

theorem allowed_classification_witness:
  "CHR 0x00 \<notin> {CMD_STATUS_REPORT grbl_defaults, CMD_CYCLE_START grbl_defaults,
                  CMD_FEED_HOLD grbl_defaults} \<and>
   allowed grbl_defaults ''part 1.NGC'' True = Filename_Invalid \<and>
   allowed grbl_defaults ''part1.NGC'' True = Filename_Valid \<and>
   allowed grbl_defaults ''image.bin'' True = Filename_Filtered \<and>
   allowed grbl_defaults ''image.bin'' False = Filename_Valid"
proof -
  have h: "CHR 0x00 \<notin> {CMD_STATUS_REPORT grbl_defaults, CMD_CYCLE_START grbl_defaults,
                          CMD_FEED_HOLD grbl_defaults}"
    by (simp add: grbl_defaults_def)
  have c1: "classify grbl_defaults ''part 1.NGC'' True = Filename_Invalid" by code_simp
  have c2: "classify grbl_defaults ''part1.NGC'' True = Filename_Valid" by code_simp
  have c3: "classify grbl_defaults ''image.bin'' True = Filename_Filtered" by code_simp
  have c4: "classify grbl_defaults ''image.bin'' False = Filename_Valid" by code_simp
  show ?thesis
    using h allowed_classification[OF h, of "''part 1.NGC''" True]
      allowed_classification[OF h, of "''part1.NGC''" True]
      allowed_classification[OF h, of "''image.bin''" True]
      allowed_classification[OF h, of "''image.bin''" False] c1 c2 c3 c4
    by simp
qed

text \<open>
  C10. A regular file whose name has no dot, or whose extension after the last dot is
  longer than seven characters, is Filtered whatever characters the name contains.
\<close>

theorem allowed_filtered_without_extension:
  assumes "CHR ''.'' \<notin> set name \<or>
           (\<exists>pre ext. name = pre @ CHR ''.'' # ext \<and> CHR ''.'' \<notin> set ext \<and>
              7 < length ext)"
  shows "allowed g name True = Filename_Filtered"
  using assms
proof
  assume "CHR ''.'' \<notin> set name"
  then have "strrchr name CHR ''.'' = None" by (simp add: strrchr_None)
  then show ?thesis by (simp add: allowed_def check_chars_def)
next
  assume "\<exists>pre ext. name = pre @ CHR ''.'' # ext \<and> CHR ''.'' \<notin> set ext \<and> 7 < length ext"
  then obtain pre ext where "name = pre @ CHR ''.'' # ext" "CHR ''.'' \<notin> set ext"
    "7 < length ext"
    by blast
  then show ?thesis by (simp add: allowed_def strrchr_tail strlen_def)
qed

theorem allowed_filtered_without_extension_witness:
  "allowed grbl_defaults ''READ ME?'' True = Filename_Filtered \<and>
   allowed grbl_defaults ''a b.longextension'' True = Filename_Filtered"
proof -
  have 1: "CHR ''.'' \<notin> set ''READ ME?''" by simp
  have 2: "''a b.longextension'' = ''a b'' @ CHR ''.'' # ''longextension'' \<and>
           CHR ''.'' \<notin> set ''longextension'' \<and> 7 < length ''longextension''"
    by simp
  show ?thesis
    using allowed_filtered_without_extension[of "''READ ME?''" grbl_defaults] 1
      allowed_filtered_without_extension[of "''a b.longextension''" grbl_defaults] 2
    by blast
qed

subsection \<open>Ending a job\<close>

lemma sdcard_end_job_eq:
  "sdcard_end_job s =
     s\<lparr>hal := \<lparr>stream = active_stream s,
                report = \<lparr>status_message = Fn_report_status_message,
                          feedback_message = Fn_report_feedback_message\<rparr>,
                driver_rt_report = NULL\<rparr>,
       sys := (sys s)\<lparr>block_input_stream := False\<rparr>,
       file_f := (file_f s)\<lparr>handle := None\<rparr>,
       calls := calls s @ [Call_reset_read_buffer (reset_read_buffer (active_stream s))]\<rparr>"
  by (simp add: sdcard_end_job_def file_close_def hal_stream_reset_read_buffer_def emit_def
      Let_def)

text \<open>
  C6. A run command dispatched while the system state is not idle returns the
  system-lock status and leaves the whole state as it was: no file is opened, and the
  stream, the hooks and the block-input flag are unchanged.
\<close>

theorem sdcard_parse_busy:
  "st \<noteq> STATE_IDLE g \<Longrightarrow>
   sdcard_parse g st (c # CHR ''F'' # CHR ''='' # path) lcline s = (Status_SystemGClock, s)"
  by (simp add: sdcard_parse_def char_at_def)

theorem sdcard_parse_busy_witness:
  "8 \<noteq> STATE_IDLE grbl_defaults \<and>
   sdcard_parse grbl_defaults 8 ''$F=/a.nc'' [] idle_console =
     (Status_SystemGClock, idle_console)"
  using sdcard_parse_busy[of 8 grbl_defaults "CHR ''$''" "''/a.nc''" "[]" idle_console]
  by (simp add: grbl_defaults_def)

text \<open>
  C3. The trapping status hook leaves everything as it is on \<^verbatim>\<open>Status_OK\<close>. On any
  other status it writes the error report, which carries the status code (its low
  eight bits, as the cast to \<^verbatim>\<open>uint8_t\<close> leaves them) and the current line number,
  through the stream's writer and then ends the job: the file is closed, the saved
  stream is restored and its read buffer reset, the standard hooks are put back and
  the block on console input is cleared.
\<close>

theorem trap_status_report_ends_job:
  "trap_status_report g Status_OK s = s \<and>
   (status_code \<noteq> Status_OK \<longrightarrow>
    trap_status_report g status_code s =
      s\<lparr>hal := \<lparr>stream = active_stream s,
                 report = \<lparr>status_message = Fn_report_status_message,
                           feedback_message = Fn_report_feedback_message\<rparr>,
                 driver_rt_report = NULL\<rparr>,
        sys := (sys s)\<lparr>block_input_stream := False\<rparr>,
        file_f := (file_f s)\<lparr>handle := None\<rparr>,
        calls := calls s @
          [Call_write (write_f (stream (hal s)))
             (Str (''error:'' @ show_int (int (status_value g status_code mod 256)) @
                   '' in SD file at line '' @ show_int (sint (line (file_f s))) @ crlf)),
           Call_reset_read_buffer (reset_read_buffer (active_stream s))]\<rparr>)"
  by (simp add: trap_status_report_def sdcard_end_job_eq hal_stream_write_def emit_def
      error_report_def)

theorem trap_status_report_ends_job_witness:
  "hal (trap_status_report grbl_defaults (Status_Other 20) at_end_of_file) = hal idle_console \<and>
   handle (file_f (trap_status_report grbl_defaults (Status_Other 20) at_end_of_file)) = None \<and>
   \<not> block_input_stream (sys (trap_status_report grbl_defaults (Status_Other 20) at_end_of_file)) \<and>
   calls (trap_status_report grbl_defaults (Status_Other 20) at_end_of_file) =
     [Call_status_message Fn_report_status_message Status_OK,
      Call_write (Fn_extern 2) (Str (''error:20 in SD file at line 0'' @ crlf)),
      Call_reset_read_buffer (Fn_extern 3)]"
proof -
  have ne: "Status_Other 20 \<noteq> Status_OK" by simp
  have v: "active_stream at_end_of_file = console_stream"
    "hal idle_console =
       \<lparr>stream = console_stream,
        report = \<lparr>status_message = Fn_report_status_message,
                  feedback_message = Fn_report_feedback_message\<rparr>,
        driver_rt_report = NULL\<rparr>"
    "calls at_end_of_file = [Call_status_message Fn_report_status_message Status_OK]"
    "write_f (stream (hal at_end_of_file)) = Fn_extern 2"
    "reset_read_buffer console_stream = Fn_extern 3"
    "show_int (int (status_value grbl_defaults (Status_Other 20) mod 256)) = ''20''"
    "show_int (sint (line (file_f at_end_of_file))) = ''0''"
    by code_simp+
  show ?thesis
    using trap_status_report_ends_job[of grbl_defaults at_end_of_file "Status_Other 20"] ne
    by (simp add: v)
qed

subsection \<open>Read requests\<close>

lemma sint_byte_minus1: "(sint (b :: 8 word) = - 1) = (b = - 1)"
  by (metis sint_n1 signed_word_eqI)

lemma minus1_sint_byte: "(- 1 = sint (b :: 8 word)) = (b = - 1)"
  using sint_byte_minus1[of b] by auto

lemma sdcard_read_alt:
  "sdcard_read g s =
     (let s1 = (if eol (file_f s) = 1
                then s\<lparr>file_f := (file_f s)\<lparr>line := line (file_f s) + 1\<rparr>\<rparr> else s)
      in if handle (file_f s1) \<noteq> None then
           (let (c, s2) = (if streaming_state g (state (sys s1)) then file_read s1 else (- 1, s1))
            in if c = - 1 then
                 (let s3 = file_close s2
                  in (if eol (file_f s3) = 0 then 0x0A else c, s3))
               else (c, s2))
         else if state (sys s1) = STATE_IDLE g then (- 1, sdcard_end_job s1)
         else (- 1, s1))"
  by (simp add: sdcard_read_def streaming_state_def Let_def)

lemma sdcard_read_byte:
  assumes "handle (file_f s) = Some fp" "ferr fp \<noteq> Some (fptr fp)" "fptr fp < length (fdata fp)"
    "fdata fp ! fptr fp \<noteq> - 1" "streaming_state g (state (sys s))"
  shows "sdcard_read g s =
     (sint (fdata fp ! fptr fp),
      s\<lparr>file_f := (file_f s)
          \<lparr>line := (if eol (file_f s) = 1 then line (file_f s) + 1 else line (file_f s)),
           handle := Some (fp\<lparr>fptr := fptr fp + 1\<rparr>),
           pos := of_nat (fptr fp + 1),
           eol := (if fdata fp ! fptr fp = 0x0D \<or> fdata fp ! fptr fp = 0x0A
                   then eol (file_f s) + 1 else 0)\<rparr>\<rparr>)"
  using assms
  by (auto simp: sdcard_read_alt file_read_def f_read_def Let_def sint_byte_minus1
      minus1_sint_byte)

lemma sdcard_read_eof:
  assumes "handle (file_f s) = Some fp" "f_read fp = None" "streaming_state g (state (sys s))"
  shows "sdcard_read g s =
     (0x0A,
      s\<lparr>file_f := (file_f s)
          \<lparr>line := (if eol (file_f s) = 1 then line (file_f s) + 1 else line (file_f s)),
           handle := None, eol := 0\<rparr>\<rparr>)"
  using assms
  by (auto simp: sdcard_read_alt file_read_def Let_def file_close_def)

lemma sdcard_read_closed_idle:
  "handle (file_f s) = None \<Longrightarrow> state (sys s) = STATE_IDLE g \<Longrightarrow>
   sdcard_read g s =
     (- 1, sdcard_end_job
             (if eol (file_f s) = 1
              then s\<lparr>file_f := (file_f s)\<lparr>line := line (file_f s) + 1\<rparr>\<rparr> else s))"
  by (simp add: sdcard_read_def Let_def)

lemma file_read_frame: "snd (file_read s) = s\<lparr>file_f := file_f (snd (file_read s))\<rparr>"
  by (simp add: file_read_def Let_def case_prod_beta split: option.splits)

lemma file_read_line: "line (file_f (snd (file_read s))) = line (file_f s)"
  by (simp add: file_read_def Let_def case_prod_beta split: option.splits)

lemma file_close_frame: "file_close s = s\<lparr>file_f := file_f (file_close s)\<rparr>"
  by (simp add: file_close_def)

lemma sdcard_read_frame:
  assumes "handle (file_f s) \<noteq> None \<or> state (sys s) \<noteq> STATE_IDLE g"
  shows "snd (sdcard_read g s) = s\<lparr>file_f := file_f (snd (sdcard_read g s))\<rparr>"
proof -
  define s1 where "s1 = (if eol (file_f s) = 1
                then s\<lparr>file_f := (file_f s)\<lparr>line := line (file_f s) + 1\<rparr>\<rparr> else s)"
  have s1: "s1 = s\<lparr>file_f := file_f s1\<rparr>" "handle (file_f s1) = handle (file_f s)"
    "state (sys s1) = state (sys s)"
    by (simp_all add: s1_def)
  define r where "r = (if streaming_state g (state (sys s1)) then file_read s1 else (- 1, s1))"
  have r: "snd r = s1\<lparr>file_f := file_f (snd r)\<rparr>"
    using file_read_frame[of s1] by (simp add: r_def)
  have rs: "snd r = s\<lparr>file_f := file_f (snd r)\<rparr>"
    by (subst r, subst s1(1)) simp
  have cs: "file_close (snd r) = s\<lparr>file_f := file_f (file_close (snd r))\<rparr>"
    by (subst file_close_frame, subst rs) simp
  have unf: "sdcard_read g s =
     (if handle (file_f s1) \<noteq> None then
        (if fst r = - 1 then
           (if eol (file_f (file_close (snd r))) = 0 then 0x0A else fst r, file_close (snd r))
         else (fst r, snd r))
      else if state (sys s1) = STATE_IDLE g then (- 1, sdcard_end_job s1)
      else (- 1, s1))"
    by (simp add: sdcard_read_alt s1_def[symmetric] r_def[symmetric] Let_def case_prod_beta)
  show ?thesis
  proof (cases "handle (file_f s) = None")
    case True
    then have "snd (sdcard_read g s) = s1" using assms s1 by (simp add: unf)
    then show ?thesis using s1(1) by simp
  next
    case False
    then have "snd (sdcard_read g s) = (if fst r = - 1 then file_close (snd r) else snd r)"
      using s1 by (simp add: unf)
    then show ?thesis using rs cs by (cases "fst r = - 1") simp_all
  qed
qed

lemma sdcard_read_line:
  "line (file_f (snd (sdcard_read g s))) =
     (if eol (file_f s) = 1 then line (file_f s) + 1 else line (file_f s))"
proof -
  define s1 where "s1 = (if eol (file_f s) = 1
                then s\<lparr>file_f := (file_f s)\<lparr>line := line (file_f s) + 1\<rparr>\<rparr> else s)"
  have l1: "line (file_f s1) =
      (if eol (file_f s) = 1 then line (file_f s) + 1 else line (file_f s))"
    by (simp add: s1_def)
  define r where "r = (if streaming_state g (state (sys s1)) then file_read s1 else (- 1, s1))"
  have r: "line (file_f (snd r)) = line (file_f s1)"
    by (simp add: r_def file_read_line)
  have c: "line (file_f (file_close (snd r))) = line (file_f s1)"
    using r by (simp add: file_close_def)
  have e: "line (file_f (sdcard_end_job s1)) = line (file_f s1)"
    by (simp add: sdcard_end_job_eq)
  have unf: "snd (sdcard_read g s) =
     (if handle (file_f s1) \<noteq> None then
        (if fst r = - 1 then file_close (snd r) else snd r)
      else if state (sys s1) = STATE_IDLE g then sdcard_end_job s1 else s1)"
    by (simp add: sdcard_read_alt s1_def[symmetric] r_def[symmetric] Let_def case_prod_beta)
  show ?thesis
    unfolding unf l1[symmetric] using r c e by simp
qed



text \<open>
  C5. The file \<^verbatim>\<open>/a.nc\<close> holds \<^verbatim>\<open>G0\<close> and a line feed: it is properly terminated.
  Five read requests in the idle state return the three bytes, then a line feed where
  the end sentinel is due, and the sentinel only after that.
\<close>

theorem line_feed_after_terminated_file:
  "map_of sd_card ''/a.nc'' = Some \<lparr>fdata = [0x47, 0x30, 0x0A], fptr = 0, ferr = None\<rparr> \<and>
   fst (read_requests grbl_defaults [0, 0, 0, 0, 0] first_job) = [0x47, 0x30, 0x0A, 0x0A, - 1]"
  by code_simp

subsection \<open>Line accounting\<close>

lemma read_requests_bytes:
  assumes "handle (file_f s) = Some fp" "ferr fp = None" "fdata fp = pre @ bs"
    "fptr fp = length pre" "- 1 \<notin> set bs" "length sts = length bs"
    "\<forall>st\<in>set sts. streaming_state g st"
  shows "\<exists>s'. read_requests g sts s = (map sint bs, s') \<and> hal s' = hal s \<and>
           active_stream s' = active_stream s \<and> calls s' = calls s \<and>
           block_input_stream (sys s') = block_input_stream (sys s) \<and>
           handle (file_f s') = Some (fp\<lparr>fptr := length pre + length bs\<rparr>) \<and>
           (line (file_f s'), eol (file_f s')) =
             fold count_step bs (line (file_f s), eol (file_f s))"
  using assms
proof (induction bs arbitrary: s fp pre sts)
  case Nil
  then show ?case by simp
next
  case (Cons b bs)
  from Cons.prems(6) obtain st sts' where sts: "sts = st # sts'" and len: "length sts' = length bs"
    by (cases sts) auto
  let ?s = "s\<lparr>sys := (sys s)\<lparr>state := st\<rparr>\<rparr>"
  let ?fp = "fp\<lparr>fptr := fptr fp + 1\<rparr>"
  let ?s1 = "?s\<lparr>file_f := (file_f ?s)
          \<lparr>line := (if eol (file_f ?s) = 1 then line (file_f ?s) + 1 else line (file_f ?s)),
           handle := Some ?fp,
           pos := of_nat (fptr fp + 1),
           eol := (if b = 0x0D \<or> b = 0x0A then eol (file_f ?s) + 1 else 0)\<rparr>\<rparr>"
  have b: "fdata fp ! fptr fp = b"
    using Cons.prems(3,4) by simp
  have "sdcard_read g ?s =
     (sint (fdata fp ! fptr fp),
      ?s\<lparr>file_f := (file_f ?s)
          \<lparr>line := (if eol (file_f ?s) = 1 then line (file_f ?s) + 1 else line (file_f ?s)),
           handle := Some ?fp,
           pos := of_nat (fptr fp + 1),
           eol := (if fdata fp ! fptr fp = 0x0D \<or> fdata fp ! fptr fp = 0x0A
                   then eol (file_f ?s) + 1 else 0)\<rparr>\<rparr>)"
    by (rule sdcard_read_byte) (use Cons.prems b sts in auto)
  then have rd: "sdcard_read g ?s = (sint b, ?s1)"
    unfolding b .
  have "\<exists>s'. read_requests g sts' ?s1 = (map sint bs, s') \<and> hal s' = hal ?s1 \<and>
           active_stream s' = active_stream ?s1 \<and> calls s' = calls ?s1 \<and>
           block_input_stream (sys s') = block_input_stream (sys ?s1) \<and>
           handle (file_f s') = Some (?fp\<lparr>fptr := length (pre @ [b]) + length bs\<rparr>) \<and>
           (line (file_f s'), eol (file_f s')) =
             fold count_step bs (line (file_f ?s1), eol (file_f ?s1))"
    using Cons.prems len sts
    by (intro Cons.IH) auto
  then obtain s' where s': "read_requests g sts' ?s1 = (map sint bs, s')" "hal s' = hal ?s1"
    "active_stream s' = active_stream ?s1" "calls s' = calls ?s1"
    "block_input_stream (sys s') = block_input_stream (sys ?s1)"
    "handle (file_f s') = Some (?fp\<lparr>fptr := length (pre @ [b]) + length bs\<rparr>)"
    "(line (file_f s'), eol (file_f s')) =
             fold count_step bs (line (file_f ?s1), eol (file_f ?s1))"
    by blast
  have "read_requests g sts s = (map sint (b # bs), s')"
    using rd s'(1) by (simp add: sts)
  moreover have "fold count_step bs (line (file_f ?s1), eol (file_f ?s1)) =
      fold count_step (b # bs) (line (file_f s), eol (file_f s))"
    by (simp add: count_step_def)
  ultimately show ?case
    using s' by (intro exI[of _ s']) simp
qed

lemma count_text0:
  "list_all (\<lambda>b. \<not> is_eol b \<and> b \<noteq> - 1) l \<Longrightarrow> fold count_step l (n, 0) = (n, 0)"
  by (induction l) (auto simp: count_step_def is_eol_def)

lemma count_text: "text_line l \<Longrightarrow> fold count_step l le = (pending le, 0)"
proof -
  assume a: "text_line l"
  then obtain b l' where l: "l = b # l'" by (cases l) (auto simp: text_line_def)
  have "count_step b le = (pending le, 0)"
    using a by (auto simp: l text_line_def count_step_def pending_def is_eol_def)
  then show ?thesis
    using a by (simp add: l text_line_def count_text0)
qed

lemma unat_succ8: "unat (e :: 8 word) < 255 \<Longrightarrow> unat (e + 1) = unat e + 1"
  by (simp add: unat_word_ariths)

lemma count_term_from:
  "list_all is_eol t \<Longrightarrow> e \<noteq> 0 \<Longrightarrow> unat e + length t \<le> 255 \<Longrightarrow>
   fold count_step t (n, e) = (if e = 1 \<and> t \<noteq> [] then n + 1 else n, e + of_nat (length t))"
proof (induction t arbitrary: n e)
  case Nil
  then show ?case by simp
next
  case (Cons b t)
  have u: "unat (e + 1) = unat e + 1"
    using Cons.prems by (intro unat_succ8) simp
  have e1: "e + 1 \<noteq> 0" "e + 1 \<noteq> 1"
    using u Cons.prems(2) by (auto simp: unat_eq_zero)
  have step: "count_step b (n, e) = (if e = 1 then n + 1 else n, e + 1)"
    using Cons.prems(1) by (simp add: count_step_def is_eol_def)
  have "fold count_step (b # t) (n, e) =
        fold count_step t (if e = 1 then n + 1 else n, e + 1)"
    by (simp add: step)
  also have "\<dots> =
     (if e + 1 = 1 \<and> t \<noteq> [] then (if e = 1 then n + 1 else n) + 1
      else (if e = 1 then n + 1 else n),
      e + 1 + of_nat (length t))"
    using Cons.prems u e1 by (intro Cons.IH) auto
  also have "\<dots> = (if e = 1 \<and> b # t \<noteq> [] then n + 1 else n, e + of_nat (length (b # t)))"
    using e1 by (simp add: ac_simps)
  finally show ?case .
qed

lemma count_term: assumes "terminator t" shows "pending (fold count_step t (n, 0)) = n + 1"
proof -
  from assms obtain b t' where t: "t = b # t'" by (cases t) (auto simp: terminator_def)
  have b: "count_step b (n, 0) = (n, 1)"
    using assms by (simp add: t terminator_def count_step_def is_eol_def)
  have f: "fold count_step t' (n, 1) = (if t' \<noteq> [] then n + 1 else n, 1 + of_nat (length t'))"
    using assms count_term_from[of t' 1 n] by (simp add: t terminator_def)
  show ?thesis
  proof (cases "t' = []")
    case True
    then show ?thesis by (simp add: t b pending_def)
  next
    case False
    have "length t' < 256" "0 < length t'" using assms False by (auto simp: t terminator_def)
    then have "(of_nat (length t') :: 8 word) \<noteq> 0"
      by (auto simp: word_of_nat_eq_0_iff dest: dvd_imp_le)
    then show ?thesis using False by (simp add: t b f pending_def)
  qed
qed

lemma count_line:
  "text_line l \<Longrightarrow> terminator t \<Longrightarrow> pending (fold count_step (l @ t) le) = pending le + 1"
  by (simp add: count_text count_term)

lemma count_lines:
  "list_all (\<lambda>lt. text_line (fst lt) \<and> terminator (snd lt)) lts \<Longrightarrow>
   pending (fold count_step (lines_file lts) le) = pending le + of_nat (length lts)"
proof (induction lts arbitrary: le)
  case Nil
  then show ?case by (simp add: lines_file_def)
next
  case (Cons lt lts)
  have "pending (fold count_step (lines_file lts) (fold count_step (fst lt @ snd lt) le)) =
        pending (fold count_step (fst lt @ snd lt) le) + of_nat (length lts)"
    using Cons.prems by (intro Cons.IH) simp
  also have "pending (fold count_step (fst lt @ snd lt) le) = pending le + 1"
    using Cons.prems by (intro count_line) auto
  finally show ?case
    by (simp add: lines_file_def add.assoc add.commute)
qed

lemma start_job_eq:
  "start_job g s =
     s\<lparr>hal := \<lparr>stream = (stream (hal s))\<lparr>type := StreamSetting_SDCard, read := Fn_sdcard_read,
                                           suspend_read := Fn_sdcard_suspend\<rparr>,
                report = \<lparr>status_message = Fn_trap_status_report,
                          feedback_message = Fn_trap_feedback_message\<rparr>,
                driver_rt_report = Fn_sdcard_report\<rparr>,
       sys := (sys s)\<lparr>block_input_stream := True\<rparr>,
       active_stream := stream (hal s),
       calls := calls s @
         (if status_message (report (hal s)) = Fn_trap_status_report then []
          else [Call_status_message (status_message (report (hal s))) Status_OK])\<rparr>"
  by (simp add: start_job_def hal_report_status_message_def trap_status_report_def emit_def
      Let_def)

lemma file_open_found:
  "map_of (disk (fatfs s)) path = Some fil \<Longrightarrow>
   file_open path s =
     (True, s\<lparr>file_f := (file_f s)\<lparr>handle := Some (fil\<lparr>fptr := 0\<rparr>),
                                  size_f := of_nat (length (fdata fil)),
                                  pos := 0, line := 0, eol := 0\<rparr>\<rparr>)"
  by (simp add: file_open_def file_close_def f_open_def Let_def)

lemma run_command_eq:
  assumes "map_of (disk (fatfs s)) path = Some fil"
  shows "run_command g path s =
     (Status_OK,
      s\<lparr>hal := \<lparr>stream = (stream (hal s))\<lparr>type := StreamSetting_SDCard, read := Fn_sdcard_read,
                                           suspend_read := Fn_sdcard_suspend\<rparr>,
                report = \<lparr>status_message = Fn_trap_status_report,
                          feedback_message = Fn_trap_feedback_message\<rparr>,
                driver_rt_report = Fn_sdcard_report\<rparr>,
       sys := (sys s)\<lparr>block_input_stream := True\<rparr>,
       file_f := (file_f s)\<lparr>handle := Some (fil\<lparr>fptr := 0\<rparr>),
                              size_f := of_nat (length (fdata fil)),
                              pos := 0, line := 0, eol := 0\<rparr>,
       active_stream := stream (hal s),
       calls := calls s @
         (if status_message (report (hal s)) = Fn_trap_status_report then []
          else [Call_status_message (status_message (report (hal s))) Status_OK])\<rparr>)"
  by (simp add: run_command_def sdcard_parse_def char_at_def file_open_found[OF assms]
      start_job_eq)

lemma read_requests_append:
  "read_requests g (xs @ ys) s =
     (fst (read_requests g xs s) @ fst (read_requests g ys (snd (read_requests g xs s))),
      snd (read_requests g ys (snd (read_requests g xs s))))"
  by (induction xs arbitrary: s) (simp_all add: case_prod_beta Let_def)

lemma lines_file_no_end_byte:
  "list_all (\<lambda>lt. text_line (fst lt) \<and> terminator (snd lt)) lts \<Longrightarrow>
   - 1 \<notin> set (lines_file lts)"
  by (induction lts)
    (auto simp: lines_file_def text_line_def terminator_def is_eol_def list_all_iff)

text \<open>
  C4, as the code has it. A file of N lines, each a non-empty text with its
  terminator, is streamed to completion: every byte is requested in a state that
  allows reading, one more request meets the end of the file, and a last one, in the
  idle state, ends the job. The requests return the bytes of the file, a line feed and
  the end sentinel, and the line counter ends at N. When one more line, without
  terminator, follows the N terminated ones, the counter ends at N all the same: the
  line feed made up for the last line is not counted. Every read request moves the
  counter at its top, and only when the end-of-line run is 1.
\<close>

theorem line_count_after_streaming:
  assumes "map_of (disk (fatfs s)) path = Some fil" and "ferr fil = None"
    and "list_all (\<lambda>lt. text_line (fst lt) \<and> terminator (snd lt)) lts"
    and "fdata fil = lines_file lts @ rest" and "rest = [] \<or> text_line rest"
    and "length sts = length (fdata fil) + 1" and "\<forall>st\<in>set sts. streaming_state g st"
  shows "fst (read_requests g (sts @ [STATE_IDLE g]) (snd (run_command g path s))) =
           map sint (fdata fil) @ [0x0A, - 1] \<and>
         line (file_f (snd (read_requests g (sts @ [STATE_IDLE g])
                              (snd (run_command g path s))))) = of_nat (length lts) \<and>
         handle (file_f (snd (read_requests g (sts @ [STATE_IDLE g])
                                (snd (run_command g path s))))) = None \<and>
         stream (hal (snd (read_requests g (sts @ [STATE_IDLE g])
                             (snd (run_command g path s))))) = stream (hal s) \<and>
         line (file_f (snd (sdcard_read g t))) =
           (if eol (file_f t) = 1 then line (file_f t) + 1 else line (file_f t))"
proof -
  define s1 where "s1 = snd (run_command g path s)"
  define fp where "fp = fil\<lparr>fptr := 0\<rparr>"
  have s1: "handle (file_f s1) = Some fp" "line (file_f s1) = 0" "eol (file_f s1) = 0"
    "active_stream s1 = stream (hal s)"
    by (simp_all add: s1_def fp_def run_command_eq[OF assms(1)])
  from assms(6) obtain sts1 st where sts: "sts = sts1 @ [st]"
    and len: "length sts1 = length (fdata fil)"
    by (cases sts rule: rev_cases) auto
  have st: "streaming_state g st" and sts1: "\<forall>x\<in>set sts1. streaming_state g x"
    using assms(7) by (auto simp: sts)
  have noend: "- 1 \<notin> set (fdata fil)"
    using assms(3,4,5) lines_file_no_end_byte[of lts] by (auto simp: text_line_def list_all_iff)
  have "\<exists>s'. read_requests g sts1 s1 = (map sint (fdata fil), s') \<and> hal s' = hal s1 \<and>
           active_stream s' = active_stream s1 \<and> calls s' = calls s1 \<and>
           block_input_stream (sys s') = block_input_stream (sys s1) \<and>
           handle (file_f s') =
             Some (fp\<lparr>fptr := length ([] :: 8 word list) + length (fdata fil)\<rparr>) \<and>
           (line (file_f s'), eol (file_f s')) =
             fold count_step (fdata fil) (line (file_f s1), eol (file_f s1))"
    using s1(1) assms(2) noend len sts1
    by (intro read_requests_bytes) (simp_all add: fp_def)
  then obtain s2 where s2: "read_requests g sts1 s1 = (map sint (fdata fil), s2)"
    "active_stream s2 = active_stream s1"
    "handle (file_f s2) = Some (fp\<lparr>fptr := length (fdata fil)\<rparr>)"
    "(line (file_f s2), eol (file_f s2)) = fold count_step (fdata fil) (0, 0)"
    using s1 by auto
  let ?s2 = "s2\<lparr>sys := (sys s2)\<lparr>state := st\<rparr>\<rparr>"
  let ?s3 = "?s2\<lparr>file_f := (file_f ?s2)
          \<lparr>line := (if eol (file_f ?s2) = 1 then line (file_f ?s2) + 1 else line (file_f ?s2)),
           handle := None, eol := 0\<rparr>\<rparr>"
  have eof: "sdcard_read g ?s2 = (0x0A, ?s3)"
    by (rule sdcard_read_eof[of _ "fp\<lparr>fptr := length (fdata fil)\<rparr>"])
       (use s2(3) st in \<open>simp_all add: f_read_def fp_def assms(2)\<close>)
  let ?s3i = "?s3\<lparr>sys := (sys ?s3)\<lparr>state := STATE_IDLE g\<rparr>\<rparr>"
  have fin: "sdcard_read g ?s3i = (- 1, sdcard_end_job ?s3i)"
    using sdcard_read_closed_idle[of ?s3i g] by simp
  have rr: "read_requests g (sts @ [STATE_IDLE g]) s1 =
              (map sint (fdata fil) @ [0x0A, - 1], sdcard_end_job ?s3i)"
    using s2(1) eof fin by (simp add: sts read_requests_append)
  have ln: "line (file_f ?s3) = pending (fold count_step (fdata fil) (0, 0))"
    using s2(4)[symmetric] by (simp add: pending_def)
  have "pending (fold count_step (fdata fil) (0, 0)) = of_nat (length lts)"
  proof -
    have a: "pending (fold count_step (lines_file lts) (0, 0)) =
             pending (0, 0) + of_nat (length lts)"
      using assms(3) by (rule count_lines)
    show ?thesis
      using assms(5)
    proof
      assume "rest = []"
      then show ?thesis using a by (simp add: assms(4) pending_def)
    next
      assume "text_line rest"
      then show ?thesis using a by (simp add: assms(4) count_text pending_def)
    qed
  qed
  then have "line (file_f (sdcard_end_job ?s3i)) = of_nat (length lts)"
    using ln by (simp add: sdcard_end_job_eq)
  moreover have "stream (hal (sdcard_end_job ?s3i)) = stream (hal s)"
    using s2(2) s1(4) by (simp add: sdcard_end_job_eq)
  moreover have "handle (file_f (sdcard_end_job ?s3i)) = None"
    by (simp add: sdcard_end_job_eq)
  ultimately show ?thesis
    unfolding s1_def[symmetric] rr by (simp add: sdcard_read_line)
qed

theorem line_count_after_streaming_witness:
  "line (file_f (snd (read_requests grbl_defaults [0, 8, 16, 0, 0]
                        (snd (run_command grbl_defaults ''/a.nc'' idle_console))))) = 1 \<and>
   fst (read_requests grbl_defaults [0, 8, 16, 0, 0]
          (snd (run_command grbl_defaults ''/a.nc'' idle_console))) =
     [0x47, 0x30, 0x0A, 0x0A, - 1] \<and>
   line (file_f (snd (read_requests grbl_defaults [0, 0, 0, 0, 0]
                        (snd (run_command grbl_defaults ''/b.nc'' idle_console))))) = 1"
proof -
  let ?a = "\<lparr>fdata = [0x47, 0x30, 0x0A], fptr = 0, ferr = None\<rparr> :: FIL"
  let ?b = "\<lparr>fdata = [0x47, 0x0A, 0x58], fptr = 0, ferr = None\<rparr> :: FIL"
  have a: "map_of (disk (fatfs idle_console)) ''/a.nc'' = Some ?a" "ferr ?a = None"
    "list_all (\<lambda>lt. text_line (fst lt) \<and> terminator (snd lt)) [([0x47, 0x30], [0x0A])]"
    "fdata ?a = lines_file [([0x47, 0x30], [0x0A])] @ []"
    "length [0, 8, 16, 0 :: nat] = length (fdata ?a) + 1"
    "\<forall>st\<in>set [0, 8, 16, 0]. streaming_state grbl_defaults st"
    by code_simp+
  have b: "map_of (disk (fatfs idle_console)) ''/b.nc'' = Some ?b" "ferr ?b = None"
    "list_all (\<lambda>lt. text_line (fst lt) \<and> terminator (snd lt)) [([0x47], [0x0A])]"
    "fdata ?b = lines_file [([0x47], [0x0A])] @ [0x58]"
    "text_line [0x58]"
    "length [0, 0, 0, 0 :: nat] = length (fdata ?b) + 1"
    "\<forall>st\<in>set [0, 0, 0, 0]. streaming_state grbl_defaults st"
    by code_simp+
  have i: "STATE_IDLE grbl_defaults = 0" by (simp add: grbl_defaults_def)
  have ra: "[] = [] \<or> text_line ([] :: 8 word list)" by simp
  have rb: "[0x58] = [] \<or> text_line [0x58 :: 8 word]" using b(5) by simp
  note A = line_count_after_streaming[OF a(1) a(2) a(3) a(4) ra a(5) a(6), unfolded i]
  note B = line_count_after_streaming[OF b(1) b(2) b(3) b(4) rb b(6) b(7), unfolded i]
  show ?thesis
    using A B by simp
qed

text \<open>
  The claim C4 fails on the card's files: \<^verbatim>\<open>/b.nc\<close> has two lines, the second
  without terminator, and the counter ends at 1; \<^verbatim>\<open>/c.nc\<close> has three terminated
  lines, the second empty, and the counter ends at 2.
\<close>

theorem line_count_counterexample:
  "map_of sd_card ''/b.nc'' =
     Some \<lparr>fdata = lines_file [([0x47], [0x0A])] @ [0x58], fptr = 0, ferr = None\<rparr> \<and>
   line (file_f (snd (read_requests grbl_defaults [0, 0, 0, 0, 0]
                        (snd (run_command grbl_defaults ''/b.nc'' idle_console))))) = 1 \<and>
   map_of sd_card ''/c.nc'' =
     Some \<lparr>fdata = lines_file [([0x47], [0x0A]), ([], [0x0A]), ([0x58], [0x0A])],
           fptr = 0, ferr = None\<rparr> \<and>
   line (file_f (snd (read_requests grbl_defaults [0, 0, 0, 0, 0, 0, 0]
                        (snd (run_command grbl_defaults ''/c.nc'' idle_console))))) = 2"
  by code_simp

subsection \<open>Saving and restoring the stream\<close>

lemma sdcard_read_active_stream: "active_stream (snd (sdcard_read g s)) = active_stream s"
proof (cases "handle (file_f s) = None \<and> state (sys s) = STATE_IDLE g")
  case True
  then show ?thesis by (simp add: sdcard_read_closed_idle sdcard_end_job_eq)
next
  case False
  then have "snd (sdcard_read g s) = s\<lparr>file_f := file_f (snd (sdcard_read g s))\<rparr>"
    by (intro sdcard_read_frame) auto
  then have "active_stream (snd (sdcard_read g s)) =
             active_stream (s\<lparr>file_f := file_f (snd (sdcard_read g s))\<rparr>)"
    by simp
  then show ?thesis by simp
qed

lemma sdcard_suspend_eq:
  "sdcard_suspend suspend s =
     (True,
      if suspend then
        s\<lparr>hal := (hal s)\<lparr>stream := (stream (hal s))\<lparr>read := read (active_stream s)\<rparr>,
                          report := (report (hal s))
                            \<lparr>status_message := Fn_report_status_message\<rparr>\<rparr>,
          sys := (sys s)\<lparr>block_input_stream := False\<rparr>,
          calls := calls s @ [Call_reset_read_buffer (reset_read_buffer (stream (hal s)))]\<rparr>
      else
        s\<lparr>hal := (hal s)\<lparr>stream := (stream (hal s))\<lparr>read := Fn_sdcard_read\<rparr>,
                          report := (report (hal s))
                            \<lparr>status_message := Fn_trap_status_report\<rparr>\<rparr>,
          sys := (sys s)\<lparr>block_input_stream := True\<rparr>\<rparr>)"
  by (simp add: sdcard_suspend_def hal_stream_reset_read_buffer_def emit_def Let_def)

lemma job_step_active_stream: "active_stream (job_step g ev s) = active_stream s"
proof (cases ev)
  case (Read_request st)
  then show ?thesis by (simp add: sdcard_read_active_stream)
next
  case (Suspend_request b)
  then show ?thesis by (simp add: sdcard_suspend_eq)
next
  case (Status_event c)
  then show ?thesis
    by (simp add: trap_status_report_def sdcard_end_job_eq hal_stream_write_def emit_def)
next
  case (Feedback_event m)
  then show ?thesis
    by (simp add: trap_feedback_message_def report_feedback_message_def sdcard_end_job_eq
        emit_def Let_def)
next
  case Reset_event
  then show ?thesis
    by (simp add: sdcard_reset_def sdcard_end_job_eq hal_stream_write_def emit_def)
qed

lemma job_steps_active_stream: "active_stream (job_steps g evs s) = active_stream s"
  unfolding job_steps_def
  by (induction evs arbitrary: s) (simp_all add: job_step_active_stream)

lemma end_job_by_restores:
  assumes "ends_job g p t"
  shows "hal (end_job_by g p t) =
           \<lparr>stream = active_stream t,
            report = \<lparr>status_message = Fn_report_status_message,
                      feedback_message = Fn_report_feedback_message\<rparr>,
            driver_rt_report = NULL\<rparr> \<and>
         \<not> block_input_stream (sys (end_job_by g p t)) \<and>
         handle (file_f (end_job_by g p t)) = None"
proof (cases p)
  case End_of_file
  then show ?thesis
    using assms by (simp add: sdcard_read_closed_idle sdcard_end_job_eq)
next
  case (Status_error c)
  then show ?thesis
    using assms
    by (simp add: trap_status_report_def sdcard_end_job_eq hal_stream_write_def emit_def)
next
  case Program_end
  then show ?thesis
    by (simp add: trap_feedback_message_def report_feedback_message_def sdcard_end_job_eq
        emit_def Let_def)
next
  case Reset
  then show ?thesis
    using assms by (simp add: sdcard_reset_def sdcard_end_job_eq hal_stream_write_def emit_def)
qed

text \<open>
  C1, as the code has it. A successful run command copies the active stream (its type
  tag and its read, write, reset-read-buffer and suspend-read functions) into
  \<^verbatim>\<open>active_stream\<close> and installs the storage stream; the status and feedback hooks
  are not saved. Whatever read requests, suspend and resume requests, reports and
  resets follow, when the job ends by any of the four paths the stream is again
  exactly the one that was active before the run command, the status and feedback
  hooks are the standard report functions, the real-time report hook is null, the
  block on console input is cleared and the file is closed. If the stream before the
  run command was not the storage stream, a reset after the end does nothing: with the
  standard hooks and the former reader in place, no path leads to a second restore.
\<close>

theorem job_restores_stream:
  assumes "map_of (disk (fatfs s)) path = Some fil"
    and "ends_job g p (job_steps g evs (snd (run_command g path s)))"
  shows "fst (run_command g path s) = Status_OK \<and>
         active_stream (snd (run_command g path s)) = stream (hal s) \<and>
         stream (hal (snd (run_command g path s))) =
           (stream (hal s))\<lparr>type := StreamSetting_SDCard, read := Fn_sdcard_read,
                              suspend_read := Fn_sdcard_suspend\<rparr> \<and>
         hal (end_job_by g p (job_steps g evs (snd (run_command g path s)))) =
           \<lparr>stream = stream (hal s),
            report = \<lparr>status_message = Fn_report_status_message,
                      feedback_message = Fn_report_feedback_message\<rparr>,
            driver_rt_report = NULL\<rparr> \<and>
         \<not> block_input_stream
             (sys (end_job_by g p (job_steps g evs (snd (run_command g path s))))) \<and>
         handle (file_f (end_job_by g p (job_steps g evs (snd (run_command g path s))))) =
           None \<and>
         (type (stream (hal s)) \<noteq> StreamSetting_SDCard \<longrightarrow>
            sdcard_reset (end_job_by g p (job_steps g evs (snd (run_command g path s)))) =
            end_job_by g p (job_steps g evs (snd (run_command g path s))))"
proof -
  define s1 where "s1 = snd (run_command g path s)"
  define s2 where "s2 = job_steps g evs s1"
  have run: "fst (run_command g path s) = Status_OK"
    "active_stream s1 = stream (hal s)"
    "stream (hal s1) = (stream (hal s))\<lparr>type := StreamSetting_SDCard, read := Fn_sdcard_read,
                              suspend_read := Fn_sdcard_suspend\<rparr>"
    by (simp_all add: s1_def run_command_eq[OF assms(1)])
  have saved: "active_stream s2 = stream (hal s)"
    by (simp add: s2_def job_steps_active_stream run(2))
  have e: "ends_job g p s2"
    using assms(2) by (simp add: s2_def s1_def)
  note r = end_job_by_restores[OF e, unfolded saved]
  have "type (stream (hal s)) \<noteq> StreamSetting_SDCard \<Longrightarrow>
        sdcard_reset (end_job_by g p s2) = end_job_by g p s2"
    using r by (simp add: sdcard_reset_def)
  then show ?thesis
    using run r unfolding s2_def s1_def by simp
qed

theorem job_restores_stream_witness:
  "hal (end_job_by grbl_defaults (Status_error (Status_Other 20))
          (job_steps grbl_defaults
             [Read_request 0, Suspend_request True, Suspend_request False, Read_request 8]
             (snd (run_command grbl_defaults ''/a.nc'' idle_console)))) = hal idle_console \<and>
   hal (end_job_by grbl_defaults End_of_file
          (job_steps grbl_defaults
             [Read_request 0, Suspend_request True, Suspend_request False, Read_request 8,
              Read_request 0, Read_request 0]
             (snd (run_command grbl_defaults ''/a.nc'' idle_console)))) = hal idle_console \<and>
   sdcard_reset
     (end_job_by grbl_defaults End_of_file
        (job_steps grbl_defaults
           [Read_request 0, Suspend_request True, Suspend_request False, Read_request 8,
            Read_request 0, Read_request 0]
           (snd (run_command grbl_defaults ''/a.nc'' idle_console)))) =
     end_job_by grbl_defaults End_of_file
       (job_steps grbl_defaults
          [Read_request 0, Suspend_request True, Suspend_request False, Read_request 8,
           Read_request 0, Read_request 0]
          (snd (run_command grbl_defaults ''/a.nc'' idle_console)))"
proof -
  let ?a = "\<lparr>fdata = [0x47, 0x30, 0x0A], fptr = 0, ferr = None\<rparr> :: FIL"
  have o: "map_of (disk (fatfs idle_console)) ''/a.nc'' = Some ?a"
    by code_simp
  have e1: "ends_job grbl_defaults (Status_error (Status_Other 20))
              (job_steps grbl_defaults
                 [Read_request 0, Suspend_request True, Suspend_request False, Read_request 8]
                 (snd (run_command grbl_defaults ''/a.nc'' idle_console)))"
    by simp
  have e2: "ends_job grbl_defaults End_of_file
              (job_steps grbl_defaults
                 [Read_request 0, Suspend_request True, Suspend_request False, Read_request 8,
                  Read_request 0, Read_request 0]
                 (snd (run_command grbl_defaults ''/a.nc'' idle_console)))"
    by code_simp
  have h: "hal idle_console =
       \<lparr>stream = stream (hal idle_console),
        report = \<lparr>status_message = Fn_report_status_message,
                  feedback_message = Fn_report_feedback_message\<rparr>,
        driver_rt_report = NULL\<rparr>"
    "type (stream (hal idle_console)) \<noteq> StreamSetting_SDCard"
    by code_simp+
  show ?thesis
    using job_restores_stream[OF o e1] job_restores_stream[OF o e2] h by simp
qed

text \<open>
  The claim C1 fails where it has the hooks saved and restored. With hooks of another
  part of the firmware installed before the run command, the hooks after the job (here
  ended by the program-end message) are the standard ones, not those. The same shows
  when a run command arrives while a job is streaming: just before it the hooks are
  the trapping ones, after the job it starts has ended (here by a reset) they are the
  standard ones. In that case the stream restored is the storage stream, and the next
  read request in the idle state runs \<^verbatim>\<open>sdcard_end_job\<close> once more.
\<close>

theorem job_restores_stream_counterexample:
  "report (hal plugin_console) =
     \<lparr>status_message = Fn_extern 5, feedback_message = Fn_extern 6\<rparr> \<and>
   report (hal (trap_feedback_message Message_ProgramEnd
                  (snd (run_command grbl_defaults ''/a.nc'' plugin_console)))) =
     \<lparr>status_message = Fn_report_status_message,
      feedback_message = Fn_report_feedback_message\<rparr> \<and>
   report (hal first_job) =
     \<lparr>status_message = Fn_trap_status_report, feedback_message = Fn_trap_feedback_message\<rparr> \<and>
   report (hal (sdcard_reset nested_job)) =
     \<lparr>status_message = Fn_report_status_message,
      feedback_message = Fn_report_feedback_message\<rparr> \<and>
   stream (hal (sdcard_reset nested_job)) = stream (hal first_job) \<and>
   read (stream (hal (sdcard_reset nested_job))) = Fn_sdcard_read \<and>
   sdcard_read grbl_defaults (sdcard_reset nested_job) =
     (- 1, sdcard_end_job (sdcard_reset nested_job))"
  by code_simp

subsection \<open>Suspending and resuming\<close>








subsection \<open>Progress report\<close>

text \<open>
  C8. A run command on the empty file \<^verbatim>\<open>/e.nc\<close> leaves position and size at zero.
  The progress report then divides zero by zero: what it hands to \<^verbatim>\<open>ftoa\<close> is not a
  number.
\<close>

theorem progress_of_empty_file:
  "map_of sd_card ''/e.nc'' = Some \<lparr>fdata = [], fptr = 0, ferr = None\<rparr> \<and>
   calls (sdcard_report (Fn_extern 2) (snd (run_command grbl_defaults ''/e.nc'' idle_console))) =
     [Call_status_message Fn_report_status_message Status_OK,
      Call_write (Fn_extern 2) (Str ''|SD:''),
      Call_write (Fn_extern 2) (Ftoa NaN 1)]"
  by (simp add: sdcard_report_def run_command_def sdcard_parse_def char_at_def file_open_def
      f_open_def file_close_def idle_console_def sd_card_def start_job_eq emit_def float_div_def
      float_mul_def Let_def)

end
